theory Spec2Isabelle
  imports Main "HOL-Library.Sublist"
begin

text \<open>
  The parser of \<^verbatim>\<open>protoc-gen-go-authz\<close> (parser.go) recovers, for every method
  of a protocol file, the authorization rule of the method: the permissions and the
  no-auth flag of its \<^verbatim>\<open>proto.v1.authz\<close> option, read from the text of the
  file with regular expressions and two brace scans, and the HTTP verb and path of
  its \<^verbatim>\<open>google.api.http\<close> option, read from the compiled options. This theory
  models the parser function by function and proves properties of it.
\<close>

section \<open>Data model\<close>

text \<open>
  A Go \<^verbatim>\<open>string\<close> is a sequence of bytes; it is modelled as a \<^typ>\<open>string\<close>, one
  \<^typ>\<open>char\<close> per byte. A slice of strings is a list; the \<^verbatim>\<open>nil\<close> slice and
  the empty slice are both the empty list (they have the same elements and length).
  Offsets into a text are \<^typ>\<open>nat\<close>; the brace counters are Go \<^verbatim>\<open>int\<close>s that
  move by one per byte read, so they stay far from the 64-bit bounds and are modelled
  as \<^typ>\<open>int\<close>.
\<close>

text \<open>
  The errors, one constructor for each \<^verbatim>\<open>fmt.Errorf\<close> of the parser (the texts
  of the messages are not modelled): the file cannot be read; the method is not found
  in the file; the braces of the method body or of the authz block are unmatched; the
  authz option is not found; the permissions list fails to parse; the options have no
  HTTP annotation; the HTTP rule has no verb set. \<open>AuthzExtractFailed\<close> and
  \<open>HTTPExtractFailed\<close> are the two wrappings of \<^verbatim>\<open>parseMethod\<close>.
\<close>

datatype site = MethodBody | AuthzBlock

datatype error =
    FileReadFailure
  | MethodNotFound
  | UnmatchedBraces site
  | AuthzOptionsNotFound
  | PermissionsParseFailure error
  | NoHTTPAnnotation
  | NoHTTPMethodFound
  | AuthzExtractFailed error
  | HTTPExtractFailed error

record authzRule =
  HTTPPath :: string
  HTTPMethod :: string
  Permissions :: "string list"
  NoAuthRequired :: bool

text \<open>
  A protobuf message as reflection shows it: the fields of its descriptor, in
  descriptor order, each with its name and, when the field is set on the message
  (\<^verbatim>\<open>Has\<close>), the string form of its value (\<^verbatim>\<open>Get(field).String()\<close>).
\<close>

type_synonym message = "(string \<times> string option) list"

text \<open>
  What the parser reads of a \<^verbatim>\<open>protogen.Method\<close>: its name, the path of the file
  that declares it, and the \<^verbatim>\<open>google.api.http\<close> extension of its options, when
  the options have one.
\<close>

record rpc_method =
  method_name :: string
  proto_path :: string
  http_extension :: "message option"

text \<open>The file system as \<^verbatim>\<open>os.ReadFile\<close> sees it: a path has a content or the read fails.\<close>

type_synonym files = "string \<rightharpoonup> string"

section \<open>Regular expressions\<close>

text \<open>
  Go's \<^verbatim>\<open>regexp\<close> finds the leftmost match and, among the matches that start
  there, the one a backtracking search finds first. The patterns of the parser are
  sequences of single-character items, starred character classes, anchors, one capture
  group and one alternative of literals; \<open>rmatch\<close> is the backtracking search over
  such a sequence. All literals of the patterns are ASCII, so matching byte by byte
  and matching rune by rune find the same spans.
\<close>

abbreviation newline :: char where
  "newline \<equiv> CHR 0x0A"

abbreviation dq :: char where
  "dq \<equiv> CHR 0x22"

abbreviation sq :: char where
  "sq \<equiv> CHR 0x27"

datatype cclass =
    CChar char   \<comment> \<open>a literal character\<close>
  | CSpace       \<comment> \<open>\<^verbatim>\<open>\s\<close>\<close>
  | CDot         \<comment> \<open>\<^verbatim>\<open>.\<close>: any character but a newline\<close>
  | CAny         \<comment> \<open>\<^verbatim>\<open>[\s\S]\<close>\<close>
  | CNot char    \<comment> \<open>\<^verbatim>\<open>[^c]\<close>\<close>

datatype rx =
    Atom cclass
  | Star cclass       \<comment> \<open>greedy \<^verbatim>\<open>*\<close>\<close>
  | Plus cclass       \<comment> \<open>greedy \<^verbatim>\<open>+\<close>\<close>
  | LazyStar cclass   \<comment> \<open>\<^verbatim>\<open>*?\<close>\<close>
  | Bol               \<comment> \<open>\<^verbatim>\<open>^\<close> under \<^verbatim>\<open>(?m)\<close>\<close>
  | Eol               \<comment> \<open>\<^verbatim>\<open>$\<close> under \<^verbatim>\<open>(?m)\<close>\<close>
  | GOpen             \<comment> \<open>start of capture group 1\<close>
  | GClose            \<comment> \<open>end of capture group 1\<close>
  | Alt string string \<comment> \<open>\<^verbatim>\<open>a|b\<close> of two literals\<close>

type_synonym regex = "rx list"

definition regex_space :: "char \<Rightarrow> bool" where
  "regex_space x \<longleftrightarrow>
     x = CHR 0x09 \<or> x = CHR 0x0A \<or> x = CHR 0x0C \<or> x = CHR 0x0D \<or> x = CHR '' ''"

fun in_class :: "cclass \<Rightarrow> char \<Rightarrow> bool" where
  "in_class (CChar c) x = (x = c)"
| "in_class CSpace x = regex_space x"
| "in_class CDot x = (x \<noteq> newline)"
| "in_class CAny x = True"
| "in_class (CNot c) x = (x \<noteq> c)"

definition lit :: "string \<Rightarrow> regex" where
  "lit w = map (\<lambda>c. Atom (CChar c)) w"

definition prev_after :: "char option \<Rightarrow> string \<Rightarrow> char option" where
  "prev_after prev w = (if w = [] then prev else Some (last w))"

text \<open>
  \<open>rmatch r prev s pos cap\<close>: match \<open>r\<close> against the text \<open>s\<close> that starts at
  offset \<open>pos\<close> and follows the character \<open>prev\<close>; the result is the end offset
  of the match and the span of group 1.
\<close>

fun rmatch :: "regex \<Rightarrow> char option \<Rightarrow> string \<Rightarrow> nat \<Rightarrow> nat \<times> nat \<Rightarrow> (nat \<times> nat \<times> nat) option" where
  "rmatch [] prev s pos cap = Some (pos, cap)"
| "rmatch (Atom c # r) prev [] pos cap = None"
| "rmatch (Atom c # r) prev (x # xs) pos cap =
     (if in_class c x then rmatch r (Some x) xs (Suc pos) cap else None)"
| "rmatch (Plus c # r) prev [] pos cap = None"
| "rmatch (Plus c # r) prev (x # xs) pos cap =
     (if in_class c x then rmatch (Star c # r) (Some x) xs (Suc pos) cap else None)"
| "rmatch (Star c # r) prev [] pos cap = rmatch r prev [] pos cap"
| "rmatch (Star c # r) prev (x # xs) pos cap =
     (if in_class c x then
        (case rmatch (Star c # r) (Some x) xs (Suc pos) cap of
           Some m \<Rightarrow> Some m
         | None \<Rightarrow> rmatch r prev (x # xs) pos cap)
      else rmatch r prev (x # xs) pos cap)"
| "rmatch (LazyStar c # r) prev [] pos cap = rmatch r prev [] pos cap"
| "rmatch (LazyStar c # r) prev (x # xs) pos cap =
     (case rmatch r prev (x # xs) pos cap of
        Some m \<Rightarrow> Some m
      | None \<Rightarrow>
          if in_class c x then rmatch (LazyStar c # r) (Some x) xs (Suc pos) cap else None)"
| "rmatch (Bol # r) prev s pos cap =
     (if prev = None \<or> prev = Some newline then rmatch r prev s pos cap else None)"
| "rmatch (Eol # r) prev [] pos cap = rmatch r prev [] pos cap"
| "rmatch (Eol # r) prev (x # xs) pos cap =
     (if x = newline then rmatch r prev (x # xs) pos cap else None)"
| "rmatch (GOpen # r) prev s pos cap = rmatch r prev s pos (pos, snd cap)"
| "rmatch (GClose # r) prev s pos cap = rmatch r prev s pos (fst cap, pos)"
| "rmatch (Alt a b # r) prev s pos cap =
     (case (if prefix a s
            then rmatch r (prev_after prev a) (drop (length a) s) (pos + length a) cap
            else None) of
        Some m \<Rightarrow> Some m
      | None \<Rightarrow>
          if prefix b s
          then rmatch r (prev_after prev b) (drop (length b) s) (pos + length b) cap
          else None)"

text \<open>
  The leftmost match at or after the current offset: the span of the whole match and
  the span of group 1.
\<close>

fun re_find :: "regex \<Rightarrow> char option \<Rightarrow> string \<Rightarrow> nat \<Rightarrow> (nat \<times> nat \<times> nat \<times> nat) option" where
  "re_find re prev [] off =
     (case rmatch re prev [] off (off, off) of
        Some (e, g) \<Rightarrow> Some (off, e, g)
      | None \<Rightarrow> None)"
| "re_find re prev (x # xs) off =
     (case rmatch re prev (x # xs) off (off, off) of
        Some (e, g) \<Rightarrow> Some (off, e, g)
      | None \<Rightarrow> re_find re (Some x) xs (Suc off))"

text \<open>Go's slice expression \<^verbatim>\<open>s[a:b]\<close>, for \<open>a \<le> b \<le> length s\<close>.\<close>

definition slice :: "string \<Rightarrow> nat \<Rightarrow> nat \<Rightarrow> string" where
  "slice s a b = take (b - a) (drop a s)"

text \<open>\<^verbatim>\<open>FindStringIndex\<close>: the span of the leftmost match.\<close>

definition FindStringIndex :: "regex \<Rightarrow> string \<Rightarrow> (nat \<times> nat) option" where
  "FindStringIndex re s =
     (case re_find re None s 0 of
        Some (b, e, g) \<Rightarrow> Some (b, e)
      | None \<Rightarrow> None)"

text \<open>
  \<^verbatim>\<open>FindStringSubmatch\<close> for a pattern with one group: the text of the leftmost
  match and the text of its group; \<open>None\<close> is Go's \<^verbatim>\<open>nil\<close> result.
\<close>

definition FindStringSubmatch :: "regex \<Rightarrow> string \<Rightarrow> (string \<times> string) option" where
  "FindStringSubmatch re s =
     (case re_find re None s 0 of
        Some (b, e, gb, ge) \<Rightarrow> Some (slice s b e, slice s gb ge)
      | None \<Rightarrow> None)"

text \<open>
  \<^verbatim>\<open>ReplaceAllString(s, "")\<close>: the matches are found from left to right, each search
  starting where the last match ended, and are deleted. After an empty match the
  search moves on by one character, which is kept.
\<close>

fun remove_all :: "regex \<Rightarrow> char option \<Rightarrow> string \<Rightarrow> string" where
  "remove_all re prev [] = []"
| "remove_all re prev (x # xs) =
     (case rmatch re prev (x # xs) 0 (0, 0) of
        Some (Suc n, g) \<Rightarrow> remove_all re (Some ((x # xs) ! n)) (drop n xs)
      | _ \<Rightarrow> x # remove_all re (Some x) xs)"

section \<open>Library string functions\<close>

text \<open>
  \<^verbatim>\<open>strings.TrimSpace\<close> removes the leading and the trailing white-space runes
  (\<^verbatim>\<open>unicode.IsSpace\<close>) of the UTF-8 text. The white-space code points are
  U+0009 to U+000D, U+0020, U+0085, U+00A0, U+1680, U+2000 to U+200A, U+2028, U+2029,
  U+202F, U+205F and U+3000; \<open>space_encodings\<close> lists their UTF-8 encodings. A
  text starts (ends) with a white-space rune exactly when it starts (ends) with one
  of these byte sequences.
\<close>

definition space_encodings :: "string list" where
  "space_encodings =
     [[CHR 0x09], [CHR 0x0A], [CHR 0x0B], [CHR 0x0C], [CHR 0x0D], [CHR 0x20],
      [CHR 0xC2, CHR 0x85], [CHR 0xC2, CHR 0xA0],
      [CHR 0xE1, CHR 0x9A, CHR 0x80],
      [CHR 0xE2, CHR 0x80, CHR 0x80], [CHR 0xE2, CHR 0x80, CHR 0x81],
      [CHR 0xE2, CHR 0x80, CHR 0x82], [CHR 0xE2, CHR 0x80, CHR 0x83],
      [CHR 0xE2, CHR 0x80, CHR 0x84], [CHR 0xE2, CHR 0x80, CHR 0x85],
      [CHR 0xE2, CHR 0x80, CHR 0x86], [CHR 0xE2, CHR 0x80, CHR 0x87],
      [CHR 0xE2, CHR 0x80, CHR 0x88], [CHR 0xE2, CHR 0x80, CHR 0x89],
      [CHR 0xE2, CHR 0x80, CHR 0x8A],
      [CHR 0xE2, CHR 0x80, CHR 0xA8], [CHR 0xE2, CHR 0x80, CHR 0xA9],
      [CHR 0xE2, CHR 0x80, CHR 0xAF],
      [CHR 0xE2, CHR 0x81, CHR 0x9F],
      [CHR 0xE3, CHR 0x80, CHR 0x80]]"

text \<open>
  The width in bytes of the white-space rune a text starts (ends) with, 0 when it
  starts (ends) with none. The trimming loops stop at the empty text, where the width
  is 0 in any case; the test makes their termination evident.
\<close>

definition lead_space :: "string \<Rightarrow> nat" where
  "lead_space s = (case find (\<lambda>e. prefix e s) space_encodings of Some e \<Rightarrow> length e | None \<Rightarrow> 0)"

definition trail_space :: "string \<Rightarrow> nat" where
  "trail_space s = (case find (\<lambda>e. suffix e s) space_encodings of Some e \<Rightarrow> length e | None \<Rightarrow> 0)"

function TrimLeftSpace :: "string \<Rightarrow> string" where
  "TrimLeftSpace s =
     (if 0 < lead_space s \<and> s \<noteq> [] then TrimLeftSpace (drop (lead_space s) s) else s)"
  by pat_completeness auto
termination
  by (relation "measure length") auto

function TrimRightSpace :: "string \<Rightarrow> string" where
  "TrimRightSpace s =
     (if 0 < trail_space s \<and> s \<noteq> [] then TrimRightSpace (take (length s - trail_space s) s) else s)"
  by pat_completeness auto
termination
  by (relation "measure length") auto

declare TrimLeftSpace.simps [simp del] TrimRightSpace.simps [simp del]

definition TrimSpace :: "string \<Rightarrow> string" where
  "TrimSpace s = TrimRightSpace (TrimLeftSpace s)"

text \<open>\<^verbatim>\<open>strings.Trim(s, cutset)\<close> for a cutset of one ASCII character.\<close>

definition Trim :: "string \<Rightarrow> char \<Rightarrow> string" where
  "Trim s c = rev (dropWhile (\<lambda>x. x = c) (rev (dropWhile (\<lambda>x. x = c) s)))"

text \<open>
  \<^verbatim>\<open>strings.Split(s, sep)\<close> for a separator of one character: the pieces between
  the separators, in order; \<open>cur\<close> is the piece being read.
\<close>

fun split_from :: "char \<Rightarrow> string \<Rightarrow> string \<Rightarrow> string list" where
  "split_from sep cur [] = [cur]"
| "split_from sep cur (x # xs) =
     (if x = sep then cur # split_from sep [] xs else split_from sep (cur @ [x]) xs)"

definition Split :: "string \<Rightarrow> char \<Rightarrow> string list" where
  "Split s sep = split_from sep [] s"

section \<open>The patterns of the parser\<close>

text \<open>
  \<^verbatim>\<open>rpc\s+NAME\s*\([^)]*\)\s*returns\s*\([^)]*\)\s*\{\<close>, where \<^verbatim>\<open>NAME\<close> is
  \<^verbatim>\<open>regexp.QuoteMeta(methodName)\<close>: the pattern that matches the name literally.
\<close>

definition rpcPattern :: "string \<Rightarrow> regex" where
  "rpcPattern methodName =
     lit ''rpc'' @ [Plus CSpace] @ lit methodName @
     [Star CSpace, Atom (CChar CHR ''(''), Star (CNot CHR '')''), Atom (CChar CHR '')''),
      Star CSpace] @ lit ''returns'' @
     [Star CSpace, Atom (CChar CHR ''(''), Star (CNot CHR '')''), Atom (CChar CHR '')''),
      Star CSpace, Atom (CChar CHR ''{'')]"

text \<open>\<^verbatim>\<open>option\s*\(\s*proto\.v1\.authz\s*\)\s*=\s*\{\<close>\<close>

definition authzStartRegex :: regex where
  "authzStartRegex =
     lit ''option'' @ [Star CSpace, Atom (CChar CHR ''(''), Star CSpace] @
     lit ''proto.v1.authz'' @
     [Star CSpace, Atom (CChar CHR '')''), Star CSpace, Atom (CChar CHR ''=''),
      Star CSpace, Atom (CChar CHR ''{'')]"

text \<open>\<^verbatim>\<open>(?m)^\s*//.*$\<close>\<close>

definition singleLineCommentRegex :: regex where
  "singleLineCommentRegex = [Bol, Star CSpace] @ lit ''//'' @ [Star CDot, Eol]"

text \<open>\<^verbatim>\<open>/\*[\s\S]*?\*/\<close>\<close>

definition multiLineCommentRegex :: regex where
  "multiLineCommentRegex = lit ''/*'' @ [LazyStar CAny] @ lit ''*/''"

text \<open>\<^verbatim>\<open>permissions\s*:\s*\[(.*?)\]\<close>\<close>

definition permissionsRegex :: regex where
  "permissionsRegex =
     lit ''permissions'' @
     [Star CSpace, Atom (CChar CHR '':''), Star CSpace, Atom (CChar CHR ''[''),
      GOpen, LazyStar CDot, GClose, Atom (CChar CHR '']'')]"

text \<open>\<^verbatim>\<open>no_auth_required\s*:\s*(true|false)\<close>\<close>

definition noAuthRegex :: regex where
  "noAuthRegex =
     lit ''no_auth_required'' @
     [Star CSpace, Atom (CChar CHR '':''), Star CSpace,
      GOpen, Alt ''true'' ''false'', GClose]"

section \<open>The authz options of a method, from the source text\<close>

text \<open>
  \<^verbatim>\<open>extractAuthzFromProtoFile\<close> (parser.go, lines 102 to 200) is modelled in its
  steps: the body of the method (lines 110 to 138), the body of the authz option in
  it (lines 140 to 168), the removal of the comments (lines 170 to 177) and the two
  field parsers (lines 179 to 199).

  The loop that both brace scans run (lines 124 to 132 and 154 to 162): from offset
  \<open>pos\<close> with \<open>braceCount\<close> braces open, read on while text is left and a
  brace is open.
\<close>

function brace_loop :: "string \<Rightarrow> nat \<Rightarrow> int \<Rightarrow> nat \<times> int" where
  "brace_loop content pos braceCount =
     (if pos < length content \<and> braceCount > 0 then
        brace_loop content (pos + 1)
          (if content ! pos = CHR ''{'' then braceCount + 1
           else if content ! pos = CHR ''}'' then braceCount - 1
           else braceCount)
      else (pos, braceCount))"
  by pat_completeness auto
termination
  by (relation "measure (\<lambda>(content, pos, braceCount). length content - pos)") auto

declare brace_loop.simps [simp del]

text \<open>
  The scan as both call sites use it: started just after an opening brace with one
  brace open; the offset just past the closing brace, or the error of the site.
\<close>

definition scan_braces :: "site \<Rightarrow> string \<Rightarrow> nat \<Rightarrow> error + nat" where
  "scan_braces st content start =
     (case brace_loop content start 1 of
        (pos, braceCount) \<Rightarrow> if braceCount \<noteq> 0 then Inl (UnmatchedBraces st) else Inr pos)"

text \<open>The body of the method \<open>methodName\<close> in the text of the file.\<close>

definition locate_method_body :: "string \<Rightarrow> string \<Rightarrow> error + string" where
  "locate_method_body content methodName =
     (case FindStringIndex (rpcPattern methodName) content of
        None \<Rightarrow> Inl MethodNotFound
      | Some (rpcStart, rpcEnd) \<Rightarrow>
          let openBrace = rpcEnd - 1 in
          (case scan_braces MethodBody content (openBrace + 1) of
             Inl err \<Rightarrow> Inl err
           | Inr pos \<Rightarrow> Inr (slice content (openBrace + 1) (pos - 1))))"

text \<open>The text between the braces of the authz option in a method body.\<close>

definition locate_authz_body :: "string \<Rightarrow> error + string" where
  "locate_authz_body methodBody =
     (case FindStringIndex authzStartRegex methodBody of
        None \<Rightarrow> Inl AuthzOptionsNotFound
      | Some (authzStart, authzStartPos) \<Rightarrow>
          (case scan_braces AuthzBlock methodBody authzStartPos of
             Inl err \<Rightarrow> Inl err
           | Inr authzCurPos \<Rightarrow> Inr (slice methodBody authzStartPos (authzCurPos - 1))))"

text \<open>The two comment removals, in the order the parser applies them.\<close>

definition strip_comments :: "string \<Rightarrow> string" where
  "strip_comments authzBody =
     remove_all multiLineCommentRegex None (remove_all singleLineCommentRegex None authzBody)"

fun clean_permissions :: "string list \<Rightarrow> string list \<Rightarrow> string list" where
  "clean_permissions [] permissions = permissions"
| "clean_permissions (perm # rawPermissions) permissions =
     (let perm1 = TrimSpace perm;
          perm2 = Trim perm1 dq;
          perm3 = Trim perm2 sq
      in clean_permissions rawPermissions
           (if perm3 \<noteq> [] then permissions @ [perm3] else permissions))"

definition parsePermissionsString :: "string \<Rightarrow> error + string list" where
  "parsePermissionsString permissionsStr =
     (let trimmed = TrimSpace permissionsStr in
      if trimmed = [] then Inr []
      else Inr (clean_permissions (Split trimmed (CHR '','')) []))"

text \<open>The field parsers, run on the authz body after the comments are removed.\<close>

definition parse_fields :: "string \<Rightarrow> error + (string list \<times> bool)" where
  "parse_fields authzBody =
     (case (case FindStringSubmatch permissionsRegex authzBody of
              Some (whole, list_text) \<Rightarrow> parsePermissionsString list_text
            | None \<Rightarrow> Inr []) of
        Inl err \<Rightarrow> Inl (PermissionsParseFailure err)
      | Inr permissions \<Rightarrow>
          Inr (permissions,
               (case FindStringSubmatch noAuthRegex authzBody of
                  Some (whole, literal) \<Rightarrow> literal = ''true''
                | None \<Rightarrow> False)))"

definition extractAuthzFromProtoFile :: "files \<Rightarrow> string \<Rightarrow> string \<Rightarrow> error + (string list \<times> bool)" where
  "extractAuthzFromProtoFile fs protoPath methodName =
     (case fs protoPath of
        None \<Rightarrow> Inl FileReadFailure
      | Some content \<Rightarrow>
          (case locate_method_body content methodName of
             Inl err \<Rightarrow> Inl err
           | Inr methodBody \<Rightarrow>
               (case locate_authz_body methodBody of
                  Inl err \<Rightarrow> Inl err
                | Inr authzBody \<Rightarrow> parse_fields (strip_comments authzBody))))"

definition extractFromProtoSource :: "files \<Rightarrow> rpc_method \<Rightarrow> error + (string list \<times> bool)" where
  "extractFromProtoSource fs m = extractAuthzFromProtoFile fs (proto_path m) (method_name m)"

definition extractAuthzOptions :: "files \<Rightarrow> rpc_method \<Rightarrow> error + (string list \<times> bool)" where
  "extractAuthzOptions fs m = extractFromProtoSource fs m"

section \<open>The HTTP binding of a method, from its options\<close>

text \<open>
  The loop over the fields of the rule in descriptor order. The extension is declared
  with the type of the HTTP rule message, so the value read from the options is a
  message and is not \<^verbatim>\<open>nil\<close>.
\<close>

fun extractHTTPInfoFromRule :: "message \<Rightarrow> error + (string \<times> string)" where
  "extractHTTPInfoFromRule [] = Inl NoHTTPMethodFound"
| "extractHTTPInfoFromRule ((name, v) # later) =
     (case v of
        None \<Rightarrow> extractHTTPInfoFromRule later
      | Some path \<Rightarrow>
          if name = ''get'' then Inr (path, ''GET'')
          else if name = ''post'' then Inr (path, ''POST'')
          else if name = ''put'' then Inr (path, ''PUT'')
          else if name = ''delete'' then Inr (path, ''DELETE'')
          else if name = ''patch'' then Inr (path, ''PATCH'')
          else extractHTTPInfoFromRule later)"

definition extractHTTPInfo :: "rpc_method \<Rightarrow> error + (string \<times> string)" where
  "extractHTTPInfo m =
     (case http_extension m of
        Some httpRule \<Rightarrow> extractHTTPInfoFromRule httpRule
      | None \<Rightarrow> Inl NoHTTPAnnotation)"

section \<open>Rule assembly\<close>

record rpc_service =
  Methods :: "rpc_method list"

record proto_file =
  Services :: "rpc_service list"

definition parseMethod :: "files \<Rightarrow> rpc_method \<Rightarrow> error + authzRule" where
  "parseMethod fs m =
     (case extractAuthzOptions fs m of
        Inl err \<Rightarrow> Inl (AuthzExtractFailed err)
      | Inr (permissions, noAuthRequired) \<Rightarrow>
          (case extractHTTPInfo m of
             Inl err \<Rightarrow> Inl (HTTPExtractFailed err)
           | Inr (httpPath, httpMethod) \<Rightarrow>
               Inr \<lparr>HTTPPath = httpPath, HTTPMethod = httpMethod,
                    Permissions = permissions, NoAuthRequired = noAuthRequired\<rparr>))"

text \<open>The loop of \<^verbatim>\<open>parseService\<close> over the methods, \<open>rules\<close> being the slice it appends to.\<close>

fun parseService_loop :: "files \<Rightarrow> rpc_method list \<Rightarrow> authzRule list \<Rightarrow> authzRule list" where
  "parseService_loop fs [] rules = rules"
| "parseService_loop fs (m # ms) rules =
     (case parseMethod fs m of
        Inl err \<Rightarrow> parseService_loop fs ms rules
      | Inr rule \<Rightarrow> parseService_loop fs ms (rules @ [rule]))"

definition parseService :: "files \<Rightarrow> rpc_service \<Rightarrow> authzRule list" where
  "parseService fs service = parseService_loop fs (Methods service) []"

fun parseFile_loop :: "files \<Rightarrow> rpc_service list \<Rightarrow> authzRule list \<Rightarrow> authzRule list" where
  "parseFile_loop fs [] rules = rules"
| "parseFile_loop fs (service # services) rules =
     parseFile_loop fs services (rules @ parseService fs service)"

definition parseFile :: "files \<Rightarrow> proto_file \<Rightarrow> authzRule list" where
  "parseFile fs file = parseFile_loop fs (Services file) []"

section \<open>Notions used to state the properties\<close>

text \<open>The verb fields of an HTTP rule and the method each stands for.\<close>

definition verb_names :: "(string \<times> string) list" where
  "verb_names = [(''get'', ''GET''), (''post'', ''POST''), (''put'', ''PUT''),
                 (''delete'', ''DELETE''), (''patch'', ''PATCH'')]"

text \<open>The rules one method contributes: its rule, or nothing when an extraction fails.\<close>

definition rules_of_method :: "files \<Rightarrow> rpc_method \<Rightarrow> authzRule list" where
  "rules_of_method fs m = (case parseMethod fs m of Inl err \<Rightarrow> [] | Inr rule \<Rightarrow> [rule])"

text \<open>
  What a character adds to the brace depth, and the depth after reading a text that
  follows an opening brace.
\<close>

definition brace_delta :: "char \<Rightarrow> int" where
  "brace_delta x = (if x = CHR ''{'' then 1 else if x = CHR ''}'' then - 1 else 0)"

definition depth_after :: "string \<Rightarrow> int" where
  "depth_after s = 1 + sum_list (map brace_delta s)"

text \<open>\<open>occurs w s\<close>: the text \<open>w\<close> is a part of the text \<open>s\<close>.\<close>

fun occurs :: "string \<Rightarrow> string \<Rightarrow> bool" where
  "occurs w [] = (w = [])"
| "occurs w (x # xs) = (prefix w (x # xs) \<or> occurs w xs)"







text \<open>
  Modelled from the spec: the serialization format of the field parsers, which the
  repository has no function for. A pair is written as the flag and the list, each
  under its key: \<^verbatim>\<open>no_auth_required: true\<close>, a line break, and
  \<^verbatim>\<open>permissions: ["a", "b"]\<close>, every permission between double quotes and the
  permissions separated by a comma and a blank.
\<close>

definition quote_perm :: "string \<Rightarrow> string" where
  "quote_perm p = [dq] @ p @ [dq]"

fun join_perms :: "string list \<Rightarrow> string" where
  "join_perms [] = []"
| "join_perms [p] = quote_perm p"
| "join_perms (p # q # ps) = quote_perm p @ '', '' @ join_perms (q # ps)"



text \<open>
  An HTTP rule with one verb field set: the fields in the order of the descriptor of
  \<^verbatim>\<open>google.api.HttpRule\<close>, the path under the verb and the body field.
\<close>

definition http_rule :: "string \<Rightarrow> string \<Rightarrow> string \<Rightarrow> message" where
  "http_rule verb path body =
     [(''selector'', None),
      (''get'', if verb = ''get'' then Some path else None),
      (''put'', if verb = ''put'' then Some path else None),
      (''post'', if verb = ''post'' then Some path else None),
      (''delete'', if verb = ''delete'' then Some path else None),
      (''patch'', if verb = ''patch'' then Some path else None),
      (''custom'', None),
      (''body'', Some body),
      (''response_body'', None),
      (''additional_bindings'', None)]"

text \<open>
  Two small files: one with the methods \<^verbatim>\<open>A\<close> and \<^verbatim>\<open>B\<close>, one whose method
  \<^verbatim>\<open>U\<close> lacks its closing brace; and descriptors of the methods, \<^verbatim>\<open>B\<close> once
  without and once with an HTTP binding.
\<close>

definition demo_proto :: string where
  \<open>demo_proto =
     ''rpc A(X) returns (Y) { option (proto.v1.authz) = {no_auth_required: true}; } '' @
     ''rpc B(X) returns (Y) { option (proto.v1.authz) = {permissions: ["r"]}; }''\<close>

definition demo_files :: files where
  "demo_files = [''a.proto'' \<mapsto> demo_proto,
     ''u.proto'' \<mapsto> ''rpc U(X) returns (Y) { option (proto.v1.authz) = {no_auth_required: true};'']"

definition demo_A :: rpc_method where
  "demo_A = \<lparr>method_name = ''A'', proto_path = ''a.proto'',
             http_extension = Some (http_rule ''post'' ''/v1/a'' ''*'')\<rparr>"

definition demo_B :: rpc_method where
  "demo_B = \<lparr>method_name = ''B'', proto_path = ''a.proto'', http_extension = None\<rparr>"


definition demo_U :: rpc_method where
  "demo_U = \<lparr>method_name = ''U'', proto_path = ''u.proto'',
             http_extension = Some (http_rule ''get'' ''/v1/u'' [])\<rparr>"


text \<open>
  Files whose comments hold braces or the header of the authz option, each beside the
  same file without them.
\<close>

definition braces_in_comment :: string where
  \<open>braces_in_comment = ''rpc A(X) returns (Y) {'' @ [newline] @ ''// {'' @ [newline] @
     ''option (proto.v1.authz) = {no_auth_required: true};'' @ [newline] @ ''}''\<close>

definition braces_not_in_comment :: string where
  \<open>braces_not_in_comment = ''rpc A(X) returns (Y) {'' @ [newline] @ ''// '' @ [newline] @
     ''option (proto.v1.authz) = {no_auth_required: true};'' @ [newline] @ ''}''\<close>

definition brace_in_authz_comment :: string where
  \<open>brace_in_authz_comment = ''rpc A(X) returns (Y) { option (proto.v1.authz) = {'' @ [newline] @
     ''// }'' @ [newline] @ ''permissions: ["a"]'' @ [newline] @ ''}; }''\<close>

definition no_brace_in_authz_comment :: string where
  \<open>no_brace_in_authz_comment = ''rpc A(X) returns (Y) { option (proto.v1.authz) = {'' @ [newline] @
     ''// '' @ [newline] @ ''permissions: ["a"]'' @ [newline] @ ''}; }''\<close>

definition header_in_comment :: string where
  \<open>header_in_comment = ''rpc A(X) returns (Y) {'' @ [newline] @
     ''// option (proto.v1.authz) = {permissions: ["fake"]};'' @ [newline] @
     ''option (proto.v1.authz) = {permissions: ["real"]};'' @ [newline] @ ''}''\<close>

text \<open>
  A method whose permissions list is written on two lines, and the same method with
  the list on one line.
\<close>

definition list_on_two_lines :: string where
  \<open>list_on_two_lines = ''rpc A(X) returns (Y) { option (proto.v1.authz) = { permissions: ["a",'' @
     [newline] @ '' "b"] }; }''\<close>

definition list_on_one_line :: string where
  \<open>list_on_one_line = ''rpc A(X) returns (Y) { option (proto.v1.authz) = { permissions: ["a", "b"] }; }''\<close>

text \<open>The example of the README: the file and the descriptors of the service.\<close>

definition readme_proto :: string where
  \<open>readme_proto =
     ''service TestService {'' @ [newline] @
     ''  rpc TestNoPermissions(TestRequest) returns (TestResponse) {'' @ [newline] @
     ''    option (google.api.http) = {'' @ [newline] @
     ''      post: "/v1/test/{foo_id}"'' @ [newline] @
     ''      body: "*"'' @ [newline] @
     ''    };'' @ [newline] @
     ''    option (proto.v1.authz) = {no_auth_required: true};'' @ [newline] @
     ''  }'' @ [newline] @
     [newline] @
     ''  rpc TestWithPermissions(TestRequest) returns (TestResponse) {'' @ [newline] @
     ''    option (google.api.http) = {'' @ [newline] @
     ''      post: "/v1/test2/{foo_id}"'' @ [newline] @
     ''      body: "*"'' @ [newline] @
     ''    };'' @ [newline] @
     ''    option (proto.v1.authz) = {'' @ [newline] @
     ''      permissions: ["read:all"]'' @ [newline] @
     ''    };'' @ [newline] @
     ''  }'' @ [newline] @
     ''}'' @ [newline]\<close>

definition readme_file :: proto_file where
  "readme_file = \<lparr>Services = [\<lparr>Methods =
     [\<lparr>method_name = ''TestNoPermissions'', proto_path = ''proto/v1/test.proto'',
       http_extension = Some (http_rule ''post'' ''/v1/test/{foo_id}'' ''*'')\<rparr>,
      \<lparr>method_name = ''TestWithPermissions'', proto_path = ''proto/v1/test.proto'',
       http_extension = Some (http_rule ''post'' ''/v1/test2/{foo_id}'' ''*'')\<rparr>]\<rparr>]\<rparr>"

section \<open>The example of the README\<close>

text \<open>The parser gives the two rules that the README shows in the generated map.\<close>

lemma readme_rules:
  "parseFile [''proto/v1/test.proto'' \<mapsto> readme_proto] readme_file =
     [\<lparr>HTTPPath = ''/v1/test/{foo_id}'', HTTPMethod = ''POST'', Permissions = [], NoAuthRequired = True\<rparr>,
      \<lparr>HTTPPath = ''/v1/test2/{foo_id}'', HTTPMethod = ''POST'', Permissions = [''read:all''], NoAuthRequired = False\<rparr>]"
  by code_simp

section \<open>The brace scan\<close>

lemma slice_step:
  assumes "pos < length content" "pos < q"
  shows "sum_list (map brace_delta (slice content pos q)) =
         brace_delta (content ! pos) + sum_list (map brace_delta (slice content (Suc pos) q))"
proof -
  have d: "drop pos content = content ! pos # drop (Suc pos) content"
    using assms(1) by (simp add: Cons_nth_drop_Suc)
  have q: "q - pos = Suc (q - Suc pos)"
    using assms(2) by simp
  show ?thesis
    unfolding slice_def d q by simp
qed

lemma slice_empty: "slice content pos pos = []"
  by (simp add: slice_def)

lemma brace_loop_inv:
  "0 < c \<Longrightarrow> pos \<le> length content \<Longrightarrow> brace_loop content pos c = (p, c') \<Longrightarrow>
   pos \<le> p \<and> p \<le> length content
   \<and> c' = c + sum_list (map brace_delta (slice content pos p))
   \<and> (\<forall>q. pos \<le> q \<and> q < p \<longrightarrow> 0 < c + sum_list (map brace_delta (slice content pos q)))
   \<and> (c' = 0 \<and> pos < p \<or> 0 < c' \<and> p = length content)"
proof (induction content pos c arbitrary: p c' rule: brace_loop.induct)
  case (1 content pos c)
  show ?case
  proof (cases "pos < length content")
    case False
    have "brace_loop content pos c = (pos, c)"
      using False by (subst brace_loop.simps) simp
    with 1(3,4) False have "p = pos" "c' = c" "pos = length content"
      by simp_all
    with 1(2) show ?thesis by (simp add: slice_empty)
  next
    case True
    define c1 where "c1 = c + brace_delta (content ! pos)"
    have c1: "(if content ! pos = CHR ''{'' then c + 1
           else if content ! pos = CHR ''}'' then c - 1 else c) = c1"
      by (simp add: c1_def brace_delta_def)
    have "brace_loop content pos c = brace_loop content (pos + 1) c1"
      using True 1(2) by (subst brace_loop.simps) (simp add: c1)
    with 1(4) have step: "brace_loop content (pos + 1) c1 = (p, c')"
      by simp
    have c1_ge: "0 \<le> c1"
      using 1(2) by (simp add: c1_def brace_delta_def)
    have q0: "0 < c + sum_list (map brace_delta (slice content pos pos))"
      using 1(2) by (simp add: slice_empty)
    show ?thesis
    proof (cases "c1 = 0")
      case z: True
      have "brace_loop content (pos + 1) c1 = (pos + 1, c1)"
        using z by (subst brace_loop.simps) simp
      with step z have pc: "p = pos + 1" "c' = 0"
        by simp_all
      have "sum_list (map brace_delta (slice content pos (pos + 1))) = brace_delta (content ! pos)"
        using slice_step[OF True, of "pos + 1"] by (simp add: slice_empty)
      with pc z True q0 show ?thesis
        by (auto simp: c1_def less_Suc_eq_le)
    next
      case nz: False
      with c1_ge have pos1: "0 < c1" by simp
      have IH: "pos + 1 \<le> p \<and> p \<le> length content
        \<and> c' = c1 + sum_list (map brace_delta (slice content (pos + 1) p))
        \<and> (\<forall>q. pos + 1 \<le> q \<and> q < p \<longrightarrow> 0 < c1 + sum_list (map brace_delta (slice content (pos + 1) q)))
        \<and> (c' = 0 \<and> pos + 1 < p \<or> 0 < c' \<and> p = length content)"
        using "1.IH"[unfolded c1, of p c'] True 1(2) pos1 step by auto
      have conv: "c + sum_list (map brace_delta (slice content pos q)) =
                  c1 + sum_list (map brace_delta (slice content (pos + 1) q))" if "pos < q" for q
        using slice_step[OF True that] by (simp add: c1_def)
      have all: "0 < c + sum_list (map brace_delta (slice content pos q))" if "pos \<le> q" "q < p" for q
      proof (cases "q = pos")
        case True
        with q0 show ?thesis by simp
      next
        case False
        with that have "pos < q" "pos + 1 \<le> q" by simp_all
        with IH that conv[of q] show ?thesis by simp
      qed
      from IH have "pos < p" by simp
      with IH conv[of p] all show ?thesis by auto
    qed
  qed
qed

text \<open>
  C3. The scan started just after an opening brace returns \<open>p\<close> exactly when
  \<open>p\<close> is the first offset past the start at which the depth, counted from 1 with
  every \<^verbatim>\<open>{\<close> adding one and every \<^verbatim>\<open>}\<close> taking one away, is 0; it fails, with
  the unmatched-braces error, exactly when the depth is above 0 at every offset up to
  the end of the text.
\<close>

theorem brace_scan:
  "(scan_braces st content start = Inr p \<longleftrightarrow>
      start < p \<and> p \<le> length content \<and> depth_after (slice content start p) = 0
      \<and> (\<forall>q. start \<le> q \<and> q < p \<longrightarrow> 0 < depth_after (slice content start q)))
   \<and> (scan_braces st content start = Inl e \<longleftrightarrow>
      e = UnmatchedBraces st
      \<and> (\<forall>q. start \<le> q \<and> q \<le> length content \<longrightarrow> 0 < depth_after (slice content start q)))"
proof (cases "start \<le> length content")
  case False
  then have "brace_loop content start 1 = (start, 1)"
    by (subst brace_loop.simps) simp
  with False show ?thesis
    by (auto simp: scan_braces_def)
next
  case True
  obtain p' c' where loop: "brace_loop content start 1 = (p', c')"
    by (cases "brace_loop content start 1")
  note inv = brace_loop_inv[OF _ True loop, simplified, folded depth_after_def]
  show ?thesis
  proof (cases "c' = 0")
    case z: True
    with inv have found: "start < p'" "p' \<le> length content" "depth_after (slice content start p') = 0"
      "\<And>q. start \<le> q \<Longrightarrow> q < p' \<Longrightarrow> 0 < depth_after (slice content start q)"
      by auto
    have res: "scan_braces st content start = Inr p'"
      using loop z by (simp add: scan_braces_def)
    have uniq: "p = p'" if "start < p" "p \<le> length content" "depth_after (slice content start p) = 0"
      "\<forall>q. start \<le> q \<and> q < p \<longrightarrow> 0 < depth_after (slice content start q)"
    proof (rule ccontr)
      assume "p \<noteq> p'"
      then consider "p < p'" | "p' < p" by linarith
      then show False
      proof cases
        case 1
        with found(4)[of p] that show False by simp
      next
        case 2
        with that(4)[rule_format, of p'] found(1,3) show False by simp
      qed
    qed
    have "\<not> (\<forall>q. start \<le> q \<and> q \<le> length content \<longrightarrow> 0 < depth_after (slice content start q))"
    proof
      assume a: "\<forall>q. start \<le> q \<and> q \<le> length content \<longrightarrow> 0 < depth_after (slice content start q)"
      from a[rule_format, of p'] found(1,2,3) show False by simp
    qed
    with res found uniq show ?thesis by auto
  next
    case nz: False
    with inv have at_end: "p' = length content" "0 < depth_after (slice content start (length content))"
      "\<And>q. start \<le> q \<Longrightarrow> q < length content \<Longrightarrow> 0 < depth_after (slice content start q)"
      by auto
    have res: "scan_braces st content start = Inl (UnmatchedBraces st)"
      using loop nz by (simp add: scan_braces_def)
    have all: "0 < depth_after (slice content start q)" if "start \<le> q" "q \<le> length content" for q
      using at_end(2) at_end(3)[of q] that by (cases "q = length content") auto
    have "\<not> (start < p \<and> p \<le> length content \<and> depth_after (slice content start p) = 0)"
      using all[of p] by auto
    with res all show ?thesis by auto
  qed
qed

theorem brace_scan_witness:
  "scan_braces AuthzBlock ''a{b}c}d'' 0 = Inr 6
   \<and> depth_after (slice ''a{b}c}d'' 0 6) = 0
   \<and> 0 < depth_after (slice ''a{b}c}d'' 0 5)
   \<and> scan_braces MethodBody ''a{b}'' 0 = Inl (UnmatchedBraces MethodBody)
   \<and> 0 < depth_after (slice ''a{b}'' 0 4)"
proof -
  have ok: "scan_braces AuthzBlock ''a{b}c}d'' 0 = Inr 6"
    by code_simp
  have bad: "scan_braces MethodBody ''a{b}'' 0 = Inl (UnmatchedBraces MethodBody)"
    by code_simp
  note a = brace_scan[of AuthzBlock "''a{b}c}d''" 0 6, THEN conjunct1, THEN iffD1, OF ok]
  note b = brace_scan[of MethodBody "''a{b}''" 0 _ "UnmatchedBraces MethodBody", THEN conjunct2, THEN iffD1, OF bad]
  from a have a1: "depth_after (slice ''a{b}c}d'' 0 6) = 0" by blast
  from a have a2: "0 < depth_after (slice ''a{b}c}d'' 0 5)" by simp
  from b have b1: "0 < depth_after (slice ''a{b}'' 0 4)" by simp
  from ok bad a1 a2 b1 show ?thesis by blast
qed

section \<open>The HTTP binding\<close>

lemma extractHTTPInfoFromRule_find:
  "extractHTTPInfoFromRule msg =
     (case find (\<lambda>(name, v). v \<noteq> None \<and> map_of verb_names name \<noteq> None) msg of
        None \<Rightarrow> Inl NoHTTPMethodFound
      | Some (name, v) \<Rightarrow> Inr (the v, the (map_of verb_names name)))"
proof (induction msg)
  case Nil
  show ?case by simp
next
  case (Cons f msg)
  obtain name v where f: "f = (name, v)" by (cases f)
  show ?case
  proof (cases v)
    case None
    with f Cons show ?thesis by simp
  next
    case (Some path)
    with f Cons show ?thesis by (simp add: verb_names_def)
  qed
qed

text \<open>
  C4. Without the HTTP extension the resolution fails with \<open>NoHTTPAnnotation\<close>.
  With it, the first field in descriptor order that is set and is named get, post, put,
  delete or patch gives the path (its value) and the method (its name in upper case);
  when no such field is set the resolution fails with \<open>NoHTTPMethodFound\<close>.
\<close>

theorem http_resolution:
  "extractHTTPInfo m =
     (case http_extension m of
        None \<Rightarrow> Inl NoHTTPAnnotation
      | Some msg \<Rightarrow>
          (case find (\<lambda>(name, v). v \<noteq> None \<and> map_of verb_names name \<noteq> None) msg of
             None \<Rightarrow> Inl NoHTTPMethodFound
           | Some (name, v) \<Rightarrow> Inr (the v, the (map_of verb_names name))))"
  by (simp add: extractHTTPInfo_def extractHTTPInfoFromRule_find split: option.splits)

section \<open>Rule assembly\<close>

lemma parseService_loop_concat:
  "parseService_loop fs ms rules = rules @ concat (map (rules_of_method fs) ms)"
  by (induction ms arbitrary: rules) (auto simp: rules_of_method_def split: sum.splits)

lemma parseService_concat:
  "parseService fs service = concat (map (rules_of_method fs) (Methods service))"
  by (simp add: parseService_def parseService_loop_concat)

lemma parseFile_loop_concat:
  "parseFile_loop fs services rules = rules @ concat (map (parseService fs) services)"
  by (induction services arbitrary: rules) auto

text \<open>
  C8. The rules of a file are the rules of its services in declaration order, and the
  rules of a service are those of its methods in declaration order, the methods
  without a rule left out. Nothing is removed: there are as many rules as methods
  that yield one, whatever their paths and verbs.
\<close>

theorem rule_order:
  "parseFile fs file =
     concat (map (\<lambda>service. concat (map (rules_of_method fs) (Methods service))) (Services file))
   \<and> length (parseFile fs file) =
       length (filter (\<lambda>m. \<not> isl (parseMethod fs m)) (concat (map Methods (Services file))))"
proof -
  have eq: "parseFile fs file =
     concat (map (\<lambda>service. concat (map (rules_of_method fs) (Methods service))) (Services file))"
    by (simp add: parseFile_def parseFile_loop_concat parseService_concat[abs_def])
  have len1: "length (concat (map (rules_of_method fs) ms)) =
      length (filter (\<lambda>m. \<not> isl (parseMethod fs m)) ms)" for ms
    by (induction ms) (auto simp: rules_of_method_def split: sum.splits)
  have "length (concat (map (\<lambda>service. concat (map (rules_of_method fs) (Methods service))) ss)) =
       length (filter (\<lambda>m. \<not> isl (parseMethod fs m)) (concat (map Methods ss)))" for ss
    by (induction ss) (auto simp: len1)
  with eq show ?thesis by simp
qed

text \<open>
  C1. When the extraction of the authz options (which includes both brace scans) or
  the resolution of the HTTP binding fails for a method, the method yields an error
  and no rule, and the rules of the service are those of the service without the
  method.
\<close>

theorem assembly_all_or_nothing:
  assumes "isl (extractAuthzOptions fs m) \<or> isl (extractHTTPInfo m)"
  shows "isl (parseMethod fs m)
         \<and> parseService fs \<lparr>Methods = before @ m # after\<rparr> = parseService fs \<lparr>Methods = before @ after\<rparr>"
proof -
  have failed: "isl (parseMethod fs m)"
    using assms by (auto simp: parseMethod_def split: sum.splits)
  then have "rules_of_method fs m = []"
    by (auto simp: rules_of_method_def split: sum.splits)
  then have "parseService fs \<lparr>Methods = before @ m # after\<rparr> = parseService fs \<lparr>Methods = before @ after\<rparr>"
    by (simp add: parseService_concat)
  with failed show ?thesis by simp
qed

theorem assembly_all_or_nothing_witness:
  "isl (extractHTTPInfo demo_B)
   \<and> isl (parseMethod demo_files demo_B)
   \<and> parseService demo_files \<lparr>Methods = [demo_A, demo_B, demo_A]\<rparr> =
       [\<lparr>HTTPPath = ''/v1/a'', HTTPMethod = ''POST'', Permissions = [], NoAuthRequired = True\<rparr>,
        \<lparr>HTTPPath = ''/v1/a'', HTTPMethod = ''POST'', Permissions = [], NoAuthRequired = True\<rparr>]
   \<and> extractAuthzOptions demo_files demo_U = Inl (UnmatchedBraces MethodBody)
   \<and> isl (parseMethod demo_files demo_U)
   \<and> parseService demo_files \<lparr>Methods = [demo_U, demo_A]\<rparr> =
       [\<lparr>HTTPPath = ''/v1/a'', HTTPMethod = ''POST'', Permissions = [], NoAuthRequired = True\<rparr>]"
proof -
  have h: "isl (extractHTTPInfo demo_B)"
    by (simp add: extractHTTPInfo_def demo_B_def)
  have u: "extractAuthzOptions demo_files demo_U = Inl (UnmatchedBraces MethodBody)"
    by code_simp
  have one: "parseService demo_files \<lparr>Methods = [demo_A]\<rparr> =
       [\<lparr>HTTPPath = ''/v1/a'', HTTPMethod = ''POST'', Permissions = [], NoAuthRequired = True\<rparr>]"
    by code_simp
  have two: "parseService demo_files \<lparr>Methods = [demo_A, demo_A]\<rparr> =
       [\<lparr>HTTPPath = ''/v1/a'', HTTPMethod = ''POST'', Permissions = [], NoAuthRequired = True\<rparr>,
        \<lparr>HTTPPath = ''/v1/a'', HTTPMethod = ''POST'', Permissions = [], NoAuthRequired = True\<rparr>]"
    by code_simp
  from assembly_all_or_nothing[of demo_files demo_B "[demo_A]" "[demo_A]"] h two
  have b: "isl (parseMethod demo_files demo_B)
     \<and> parseService demo_files \<lparr>Methods = [demo_A, demo_B, demo_A]\<rparr> =
       [\<lparr>HTTPPath = ''/v1/a'', HTTPMethod = ''POST'', Permissions = [], NoAuthRequired = True\<rparr>,
        \<lparr>HTTPPath = ''/v1/a'', HTTPMethod = ''POST'', Permissions = [], NoAuthRequired = True\<rparr>]"
    by simp
  from assembly_all_or_nothing[of demo_files demo_U "[]" "[demo_A]"] u one
  have c: "isl (parseMethod demo_files demo_U)
     \<and> parseService demo_files \<lparr>Methods = [demo_U, demo_A]\<rparr> =
       [\<lparr>HTTPPath = ''/v1/a'', HTTPMethod = ''POST'', Permissions = [], NoAuthRequired = True\<rparr>]"
    by simp
  from h u b c show ?thesis by blast
qed

section \<open>The permissions list never fails to parse\<close>

text \<open>
  C9. The parser of the permissions list returns a list for every text, so the field
  parsers return fields for every authz body and the extraction of the authz options
  never fails with \<open>PermissionsParseFailure\<close>.
\<close>

theorem parse_never_fails:
  "(\<exists>permissions. parsePermissionsString s = Inr permissions)
   \<and> (\<exists>fields. parse_fields body = Inr fields)
   \<and> extractAuthzFromProtoFile fs protoPath methodName \<noteq> Inl (PermissionsParseFailure e)"
proof -
  have p: "\<exists>permissions. parsePermissionsString s = Inr permissions" for s
    by (simp add: parsePermissionsString_def Let_def)
  have f: "\<exists>fields. parse_fields body = Inr fields" for body
  proof (cases "FindStringSubmatch permissionsRegex body")
    case None
    then show ?thesis by (simp add: parse_fields_def)
  next
    case (Some a)
    obtain whole g where a: "a = (whole, g)" by (cases a)
    from p[of g] obtain ps where "parsePermissionsString g = Inr ps" by blast
    with Some a show ?thesis by (simp add: parse_fields_def)
  qed
  have "locate_method_body content methodName \<noteq> Inl (PermissionsParseFailure e)" for content
    by (auto simp: locate_method_body_def scan_braces_def Let_def split: option.splits prod.splits sum.splits if_splits)
  moreover have "locate_authz_body mb \<noteq> Inl (PermissionsParseFailure e)" for mb
    by (auto simp: locate_authz_body_def scan_braces_def Let_def split: option.splits prod.splits sum.splits if_splits)
  moreover have "parse_fields b \<noteq> Inl x" for b x
    using f[of b] by auto
  ultimately have "extractAuthzFromProtoFile fs protoPath methodName \<noteq> Inl (PermissionsParseFailure e)"
    by (auto simp: extractAuthzFromProtoFile_def split: option.splits sum.splits)
  with p f show ?thesis by blast
qed

section \<open>Facts about the matcher\<close>

lemma rmatch_lit:
  "rmatch (lit w @ r) prev s pos cap =
     (if prefix w s then rmatch r (prev_after prev w) (drop (length w) s) (pos + length w) cap
      else None)"
proof (induction w arbitrary: prev s pos)
  case Nil
  show ?case by (simp add: lit_def prev_after_def)
next
  case (Cons a w)
  show ?case
  proof (cases s)
    case Nil
    then show ?thesis by (simp add: lit_def)
  next
    case (Cons x xs)
    have "rmatch (lit (a # w) @ r) prev (x # xs) pos cap =
          (if x = a then rmatch (lit w @ r) (Some x) xs (Suc pos) cap else None)"
      by (simp add: lit_def)
    also have "\<dots> = (if prefix (a # w) (x # xs)
         then rmatch r (prev_after prev (a # w)) (drop (length (a # w)) (x # xs)) (pos + length (a # w)) cap
         else None)"
      by (auto simp: Cons.IH prev_after_def)
    finally show ?thesis using Cons by simp
  qed
qed

lemma re_find_lit_occurs:
  "re_find (lit w @ r) prev s off = Some m \<Longrightarrow> occurs w s"
proof (induction s arbitrary: prev off)
  case Nil
  then show ?case
    by (auto simp: rmatch_lit split: if_splits option.splits)
next
  case (Cons x xs)
  show ?case
  proof (cases "rmatch (lit w @ r) prev (x # xs) off (off, off)")
    case None
    with Cons.prems have "re_find (lit w @ r) (Some x) xs (Suc off) = Some m" by simp
    from Cons.IH[OF this] show ?thesis by simp
  next
    case (Some a)
    then have "prefix w (x # xs)"
      by (simp add: rmatch_lit split: if_splits)
    then show ?thesis by simp
  qed
qed

lemma FindStringSubmatch_lit_occurs:
  "\<not> occurs w s \<Longrightarrow> FindStringSubmatch (lit w @ r) s = None"
  using re_find_lit_occurs[of w r None s 0]
  by (cases "re_find (lit w @ r) None s 0") (auto simp: FindStringSubmatch_def)








section \<open>Comments outside the authz block\<close>

text \<open>
  C10. The comments are removed from the authz body only. In the text searched for
  the method body and for the header of the option they are read as any other text:
  an opening brace in a comment of the method body leaves the scan of the method
  unmatched; a closing brace in a comment of the authz block ends the block there,
  so that the permissions after it are not read; and a header of the option in a
  comment line is taken for the option, so that the permissions of the comment are
  the ones extracted.
\<close>

theorem comments_outside_block:
  "extractAuthzFromProtoFile [''a.proto'' \<mapsto> braces_in_comment] ''a.proto'' ''A'' = Inl (UnmatchedBraces MethodBody)
   \<and> extractAuthzFromProtoFile [''a.proto'' \<mapsto> braces_not_in_comment] ''a.proto'' ''A'' = Inr ([], True)
   \<and> extractAuthzFromProtoFile [''a.proto'' \<mapsto> brace_in_authz_comment] ''a.proto'' ''A'' = Inr ([], False)
   \<and> extractAuthzFromProtoFile [''a.proto'' \<mapsto> no_brace_in_authz_comment] ''a.proto'' ''A'' = Inr ([''a''], False)
   \<and> extractAuthzFromProtoFile [''a.proto'' \<mapsto> header_in_comment] ''a.proto'' ''A'' = Inr ([''fake''], False)"
proof -
  have 1: "extractAuthzFromProtoFile [''a.proto'' \<mapsto> braces_in_comment] ''a.proto'' ''A'' = Inl (UnmatchedBraces MethodBody)"
    by code_simp
  have 2: "extractAuthzFromProtoFile [''a.proto'' \<mapsto> braces_not_in_comment] ''a.proto'' ''A'' = Inr ([], True)"
    by code_simp
  have 3: "extractAuthzFromProtoFile [''a.proto'' \<mapsto> brace_in_authz_comment] ''a.proto'' ''A'' = Inr ([], False)"
    by code_simp
  have 4: "extractAuthzFromProtoFile [''a.proto'' \<mapsto> no_brace_in_authz_comment] ''a.proto'' ''A'' = Inr ([''a''], False)"
    by code_simp
  have 5: "extractAuthzFromProtoFile [''a.proto'' \<mapsto> header_in_comment] ''a.proto'' ''A'' = Inr ([''fake''], False)"
    by code_simp
  from 1 2 3 4 5 show ?thesis by simp
qed

section \<open>Comments inside the authz block\<close>


text \<open>
  The line comments are removed before the block comments, so a block comment whose
  closing mark stands on a line that starts with \<^verbatim>\<open>//\<close> is not removed either.
\<close>

lemma block_comment_closed_on_comment_line:
  \<open>parse_fields (strip_comments
     (''/* permissions: ["fake"]'' @ [newline] @ ''// */'' @ [newline] @ ''no_auth_required: true'')) =
   Inr ([''fake''], True)\<close>
  by code_simp




declare remove_all.simps(2) [simp del]





























text \<open>
  A block comment on a line that starts with \<^verbatim>\<open>//\<close> ends with that line, and a
  mark \<^verbatim>\<open>/*\<close> inside an open block comment opens nothing: in both texts the list
  is read.
\<close>

lemma block_comment_hypotheses_needed:
  \<open>parse_fields (strip_comments (''// /*'' @ [newline] @ ''permissions: ["fake"] */'')) =
     Inr ([''fake''], False)
   \<and> parse_fields (strip_comments ''/**/* permissions: ["fake"] */'') = Inr ([''fake''], False)\<close>
  by code_simp
















section \<open>Absent fields\<close>























section \<open>The permissions list\<close>

text \<open>
  C2. A permissions list whose elements are on two lines is not read: the pattern of
  the list does not match across a line break, so the method gets no permissions. The
  same list on one line gives both elements, and so does the parser of the list on
  the text of the two lines.
\<close>

theorem permissions_list_over_two_lines:
  \<open>extractAuthzFromProtoFile [''a.proto'' \<mapsto> list_on_two_lines] ''a.proto'' ''A'' = Inr ([], False)
   \<and> extractAuthzFromProtoFile [''a.proto'' \<mapsto> list_on_one_line] ''a.proto'' ''A'' = Inr ([''a'', ''b''], False)
   \<and> parsePermissionsString (''"a",'' @ [newline] @ '' "b"'') = Inr [''a'', ''b'']\<close>
  by code_simp

section \<open>Serializing and parsing again\<close>






lemma lead_space_dq [simp]: "lead_space (dq # s) = 0"
  by (simp add: lead_space_def space_encodings_def)

lemma lead_space_blank [simp]: "lead_space (CHR '' '' # s) = 1"
  by (simp add: lead_space_def space_encodings_def)

lemma trail_space_dq [simp]: "trail_space (s @ [dq]) = 0"
  by (simp add: trail_space_def space_encodings_def suffix_to_prefix)

lemma TrimLeftSpace_dq [simp]: "TrimLeftSpace (dq # s) = dq # s"
  by (subst TrimLeftSpace.simps) simp

lemma TrimLeftSpace_blank [simp]: "TrimLeftSpace (CHR '' '' # s) = TrimLeftSpace s"
  by (subst TrimLeftSpace.simps) simp

lemma TrimRightSpace_dq [simp]: "TrimRightSpace (s @ [dq]) = s @ [dq]"
  by (subst TrimRightSpace.simps) simp

lemma TrimSpace_quoted [simp]: "TrimSpace (quote_perm p) = quote_perm p"
proof -
  have "TrimRightSpace ((dq # p) @ [dq]) = (dq # p) @ [dq]"
    by (rule TrimRightSpace_dq)
  then show ?thesis by (simp add: TrimSpace_def quote_perm_def)
qed

lemma TrimSpace_blank_quoted [simp]: "TrimSpace (CHR '' '' # quote_perm p) = quote_perm p"
  using TrimSpace_quoted[of p] by (simp add: TrimSpace_def quote_perm_def)






lemma join_perms_ends:
  "\<exists>X. join_perms (p # ps) = dq # X @ [dq]"
proof (induction ps arbitrary: p)
  case Nil
  show ?case by (simp add: quote_perm_def)
next
  case (Cons q ps)
  from Cons[of q] obtain X where "join_perms (q # ps) = dq # X @ [dq]" by blast
  then have "join_perms (p # q # ps) = dq # (p @ [dq] @ '', '' @ [dq] @ X) @ [dq]"
    by (simp add: quote_perm_def)
  then show ?case by blast
qed

lemma TrimSpace_join [simp]: "TrimSpace (join_perms (p # ps)) = join_perms (p # ps)"
proof -
  from join_perms_ends[of p ps] obtain X where X: "join_perms (p # ps) = dq # X @ [dq]" by blast
  have "TrimSpace (quote_perm X) = quote_perm X" by (rule TrimSpace_quoted)
  then show ?thesis by (simp add: X quote_perm_def)
qed








end
